theory Spec2Isabelle
  imports Main
begin

section \<open>Python strings, errors and dictionaries\<close>

text \<open>
  A Python \<open>str\<close> is a sequence of Unicode code points; it is modelled as a list of
  natural numbers, so that the Cyrillic currency suffix of the price text has a value.
  ASCII literals are written \<open>ascii ''...''\<close>.
\<close>

type_synonym ustring = "nat list"

definition ascii :: "string \<Rightarrow> ustring" where
  "ascii s = map of_char s"

text \<open>The three code points of the currency suffix: U+0440, U+0443, U+0431.\<close>

definition rub :: ustring where
  "rub = [1088, 1091, 1073]"

text \<open>
  \<open>s.replace(old, new)\<close>: every non-overlapping occurrence of \<open>old\<close>, found from the left,
  is replaced by \<open>new\<close>; an empty \<open>old\<close> matches before every character and at the end.
\<close>

fun replace_str :: "ustring \<Rightarrow> ustring \<Rightarrow> ustring \<Rightarrow> ustring" where
  "replace_str old new [] = (if old = [] then new else [])"
| "replace_str old new (c # cs) =
     (if old = [] then new @ c # replace_str old new cs
      else if take (length old) (c # cs) = old
           then new @ replace_str old new (drop (length old) (c # cs))
           else c # replace_str old new cs)"

text \<open>\<open>sep.join(xs)\<close> on a list of strings.\<close>

fun str_join :: "ustring \<Rightarrow> ustring list \<Rightarrow> ustring" where
  "str_join sep [] = []"
| "str_join sep [x] = x"
| "str_join sep (x # y # ys) = x @ sep @ str_join sep (y # ys)"





text \<open>
  The exceptions the code raises or lets through. \<open>ProductLinksNotFound\<close> is the class of
  the source and carries the link of the page.
\<close>

datatype error =
    ProductLinksNotFound ustring
  | AttributeError
  | TypeError
  | IndexError
  | ValueError
  | OverflowError

text \<open>
  A Python \<open>dict\<close> keeps insertion order, and assigning to a key that is already present
  changes the value in place: an association list with that update.
\<close>

type_synonym ('k, 'v) dict = "('k \<times> 'v) list"

fun dict_set :: "'k \<Rightarrow> 'v \<Rightarrow> ('k, 'v) dict \<Rightarrow> ('k, 'v) dict" where
  "dict_set k v [] = [(k, v)]"
| "dict_set k v ((k', v') # d) =
     (if k' = k then (k, v) # d else (k', v') # dict_set k v d)"

text \<open>\<open>dict(a, **b)\<close>: a copy of \<open>a\<close> updated with the items of \<open>b\<close> in order.\<close>

definition dict_update :: "('k, 'v) dict \<Rightarrow> ('k, 'v) dict \<Rightarrow> ('k, 'v) dict" where
  "dict_update a b = foldl (\<lambda>d (k, v). dict_set k v d) a b"

text \<open>A row of product data: field name to \<open>str | None\<close>.\<close>

type_synonym row = "(ustring, ustring option) dict"

section \<open>Links\<close>

definition base_link :: ustring where
  "base_link = ascii ''https://yacht-parts.ru/''"

definition slash :: nat where
  "slash = 47"

text \<open>
  \<open>get_absolute_link\<close>. The argument is an \<open>href\<close> read from a page, which is \<open>None\<close> when
  the attribute is missing: indexing \<open>None\<close> raises \<open>TypeError\<close>, indexing the empty
  string raises \<open>IndexError\<close>.
\<close>

definition get_absolute_link :: "ustring option \<Rightarrow> error + ustring" where
  "get_absolute_link relevant_link =
     (case relevant_link of
        None \<Rightarrow> Inl TypeError
      | Some rl \<Rightarrow>
          if last base_link = slash then
            (case rl of
               [] \<Rightarrow> Inl IndexError
             | c # cs \<Rightarrow> Inr (base_link @ (if c = slash then cs else rl)))
          else Inr (base_link @ rl))"


section \<open>Pages of the site\<close>

text \<open>
  What the parser reads from a page is modelled as data: a missing tag is \<open>None\<close>, a tag
  list is a list, an attribute read with \<open>attrs.get\<close> is \<open>None\<close> when absent. An \<open>a\<close> tag
  is its \<open>href\<close> and its stripped text.
\<close>

datatype a_tag = A_tag (href: "ustring option") (a_text: ustring)







section \<open>Specific data of a product page\<close>

text \<open>
  The part of a product page that \<open>get_specific_data\<close> reads. A text is the result of
  \<open>get_text(strip=True)\<close> on the tag; \<open>article_value\<close> is \<open>None\<close> when the article block or
  its value span is missing; \<open>image_hrefs\<close> are the \<open>href\<close>s of the thumbnails, empty when
  the image wrapper or its slides are missing.
\<close>

record middle_info_tag =
  price_tag :: "ustring option"

record top_info_tag =
  article_value :: "ustring option"

record main_info_tag =
  middle_info :: "middle_info_tag option"
  top_info :: "top_info_tag option"
  image_hrefs :: "ustring option list"

text \<open>Price extraction, lines 547 to 555.\<close>

definition extract_price :: "ustring option \<Rightarrow> ustring option" where
  "extract_price tag =
     (case tag of
        Some text \<Rightarrow>
          (let price = text;
               price = replace_str (ascii '' '') [] price;
               price = replace_str (ascii ''.'') [] price;
               price = replace_str rub [] price
           in Some price)
      | None \<Rightarrow> None)"

fun collect_image_links :: "ustring option list \<Rightarrow> error + ustring list" where
  "collect_image_links [] = Inr []"
| "collect_image_links (rel_link # rest) =
     (if rel_link = None \<or> rel_link = Some [] then collect_image_links rest
      else case get_absolute_link rel_link of
             Inl e \<Rightarrow> Inl e
           | Inr link \<Rightarrow>
               (case collect_image_links rest of
                  Inl e \<Rightarrow> Inl e
                | Inr links \<Rightarrow> Inr (link # links)))"

definition get_specific_data :: "main_info_tag option \<Rightarrow> error + row" where
  "get_specific_data main_info =
     (case main_info of
        None \<Rightarrow> Inl AttributeError
      | Some mi \<Rightarrow>
          (case top_info mi of
             None \<Rightarrow> Inl AttributeError
           | Some top_tag \<Rightarrow>
               (case middle_info mi of
                  None \<Rightarrow> Inl AttributeError
                | Some middle_tag \<Rightarrow>
                    (case collect_image_links (image_hrefs mi) of
                       Inl e \<Rightarrow> Inl e
                     | Inr image_links \<Rightarrow>
                         Inr [(ascii ''article'', article_value top_tag),
                              (ascii ''price'', extract_price (price_tag middle_tag)),
                              (ascii ''image_links'',
                                 Some (str_join (ascii '','') image_links))]))))"

section \<open>Option enumeration on a product page\<close>

text \<open>
  The live product page in the browser. An option button is an \<open>li\<close> element with the
  attributes the code reads through \<open>get_attribute\<close> (\<open>None\<close> when absent). The groups
  found by \<open>get_product_page_data\<close> are \<open>None\<close> when the options block is missing. The
  four general fields are what \<open>get_general_data\<close> extracts from the page for brand,
  name and the two descriptions.
\<close>

record li_tag =
  li_title :: "ustring option"
  li_style :: "ustring option"
  li_class :: "ustring option"

record product_dom =
  option_groups :: "li_tag list list option"
  main_info :: "main_info_tag option"
  brand :: "ustring option"
  product_name :: "ustring option"
  main_description :: "ustring option"
  preview_description :: "ustring option"
  current_url :: ustring

text \<open>
  Clicking button \<open>btn\<close> of group \<open>level\<close> is the page's own script: it gives the next
  page state, or one of the two exceptions that \<open>iterate_options\<close> catches and logs.
\<close>

datatype click_outcome =
    Clicked product_dom
  | NoSuchElementException
  | ElementClickInterceptedException

type_synonym click_fn = "nat \<Rightarrow> nat \<Rightarrow> product_dom \<Rightarrow> click_outcome"

text \<open>\<open>options_groups[g].find_elements(By.TAG_NAME, 'li')\<close> on the live page.\<close>

definition find_li :: "product_dom \<Rightarrow> nat \<Rightarrow> li_tag list" where
  "find_li page g =
     (case option_groups page of
        None \<Rightarrow> []
      | Some groups \<Rightarrow> if g < length groups then groups ! g else [])"

definition display_none :: ustring where
  "display_none = ascii ''display: none;''"

text \<open>Lines 311 and 312: the buttons kept, as positions in the group.\<close>

definition visible_btns :: "li_tag list \<Rightarrow> nat list" where
  "visible_btns lis = [i \<leftarrow> [0..<length lis]. \<not> li_style (lis ! i) = Some display_none]"

text \<open>Lines 333 to 341: the titles of the active buttons of all \<open>n\<close> groups.\<close>

definition selected_options :: "nat \<Rightarrow> product_dom \<Rightarrow> ustring option list" where
  "selected_options n page =
     (let buttons = concat (map (find_li page) [0..<n])
      in [li_title item. item \<leftarrow> buttons, li_class item = Some (ascii ''active'')])"

text \<open>
  Lines 315 to 329: move to the button and click it; the two exceptions are logged and
  the loop body goes on, with the page as it was.
\<close>

definition press :: "click_fn \<Rightarrow> nat \<Rightarrow> nat \<Rightarrow> product_dom \<Rightarrow> product_dom" where
  "press click level btn page =
     (case click level btn page of
        Clicked d \<Rightarrow> d
      | NoSuchElementException \<Rightarrow> page
      | ElementClickInterceptedException \<Rightarrow> page)"

text \<open>
  The generator \<open>iterate_options\<close> for \<open>n = len(options_groups)\<close> groups. Its result is
  the list of values it yields, each with the page state at that yield (the consumer
  reads the page there), the exception that ends it, if any, and the final page state.
  \<open>btns_loop\<close> is the \<open>for btn in options_btns\<close> loop. Below the last level the values of
  the recursive generator are consumed by a loop whose body is \<open>pass\<close>.
\<close>

type_synonym gen_result =
  "(ustring option list \<times> product_dom) list \<times> error option \<times> product_dom"

function iterate_options :: "click_fn \<Rightarrow> nat \<Rightarrow> nat \<Rightarrow> product_dom \<Rightarrow> gen_result"
  and btns_loop :: "click_fn \<Rightarrow> nat \<Rightarrow> nat \<Rightarrow> nat list \<Rightarrow> product_dom \<Rightarrow> gen_result"
where
  "iterate_options click n level page =
     (if n \<le> level then ([], Some IndexError, page)
      else btns_loop click n level (visible_btns (find_li page level)) page)"
| "btns_loop click n level [] page = ([], None, page)"
| "btns_loop click n level (btn # btns) page =
     (let page1 = press click level btn page
      in if Suc level = n then
           (case btns_loop click n level btns page1 of
              (ys, err, page2) \<Rightarrow> ((selected_options n page1, page1) # ys, err, page2))
         else
           (case iterate_options click n (Suc level) page1 of
              (ys, Some e, page2) \<Rightarrow> ([], Some e, page2)
            | (ys, None, page2) \<Rightarrow> btns_loop click n level btns page2))"
  by pat_completeness auto
termination
  apply (relation "inv_image (less_than <*lex*> less_than)
     (\<lambda>x. case x of
        Inl (c, n, l, d) \<Rightarrow> (2 * (n - l), 0)
      | Inr (c, n, l, bs, d) \<Rightarrow> ((if l < n then 2 * (n - l) - 1 else 1), length bs))")
  apply auto
  done

declare iterate_options.simps [simp del]


text \<open>
  An example page script: a click marks the button active and the other buttons of its
  group inactive, and changes nothing else. The example page has two groups, of two and
  of three buttons, none hidden.
\<close>

definition mark_active :: "nat \<Rightarrow> li_tag list \<Rightarrow> li_tag list" where
  "mark_active btn lis =
     map (\<lambda>i. (lis ! i)\<lparr>li_class := (if i = btn then Some (ascii ''active'') else None)\<rparr>)
       [0..<length lis]"

definition select_click :: click_fn where
  "select_click level btn page =
     (case option_groups page of
        None \<Rightarrow> NoSuchElementException
      | Some groups \<Rightarrow>
          if level < length groups \<and> btn < length (groups ! level)
          then Clicked (page\<lparr>option_groups :=
                 Some (groups[level := mark_active btn (groups ! level)])\<rparr>)
          else NoSuchElementException)"

definition option_btn :: "string \<Rightarrow> li_tag" where
  "option_btn title = \<lparr>li_title = Some (ascii title), li_style = None, li_class = None\<rparr>"

definition two_by_three :: product_dom where
  "two_by_three =
     \<lparr>option_groups = Some [[option_btn ''S'', option_btn ''M''],
                            [option_btn ''red'', option_btn ''green'', option_btn ''blue'']],
      main_info = Some \<lparr>middle_info = Some \<lparr>price_tag = Some (ascii ''100'')\<rparr>,
                        top_info = Some \<lparr>article_value = Some (ascii ''A1'')\<rparr>,
                        image_hrefs = []\<rparr>,
      brand = None, product_name = Some (ascii ''rope''), main_description = None,
      preview_description = None, current_url = base_link @ ascii ''p/1/''\<rparr>"

section \<open>Data of a product page\<close>

text \<open>
  \<open>get_general_data\<close>: the empty dictionary when the main block is missing; the lookups in
  the top and middle blocks are outside the \<open>try\<close> and raise when those are missing.
\<close>

definition get_general_data :: "product_dom \<Rightarrow> error + row" where
  "get_general_data page =
     (case main_info page of
        None \<Rightarrow> Inr []
      | Some mi \<Rightarrow>
          (case top_info mi of
             None \<Rightarrow> Inl AttributeError
           | Some top_tag \<Rightarrow>
               (case middle_info mi of
                  None \<Rightarrow> Inl AttributeError
                | Some middle_tag \<Rightarrow>
                    Inr [(ascii ''brand'', brand page),
                         (ascii ''name'', product_name page),
                         (ascii ''main_description'', main_description page),
                         (ascii ''preview_description'', preview_description page),
                         (ascii ''product_link'', Some (current_url page))])))"

text \<open>\<open>','.join(selected_options)\<close> raises \<open>TypeError\<close> when a title is \<open>None\<close>.\<close>

definition join_titles :: "ustring option list \<Rightarrow> error + ustring" where
  "join_titles titles =
     (if None \<in> set titles then Inl TypeError
      else Inr (str_join (ascii '','') (map the titles)))"

text \<open>The body of the loop over the generator, lines 382 to 390, for the values yielded.\<close>

fun option_rows :: "row \<Rightarrow> (ustring option list \<times> product_dom) list \<Rightarrow> error + row list" where
  "option_rows general_data [] = Inr []"
| "option_rows general_data ((selected, page) # ys) =
     (case get_specific_data (main_info page) of
        Inl e \<Rightarrow> Inl e
      | Inr specific_data \<Rightarrow>
          (case join_titles selected of
             Inl e \<Rightarrow> Inl e
           | Inr joined \<Rightarrow>
               (case option_rows general_data ys of
                  Inl e \<Rightarrow> Inl e
                | Inr rows \<Rightarrow>
                    Inr (dict_set (ascii ''options'') (Some joined)
                           (dict_update general_data specific_data) # rows))))"

definition get_product_page_data :: "click_fn \<Rightarrow> product_dom \<Rightarrow> error + row list" where
  "get_product_page_data click page =
     (case get_general_data page of
        Inl e \<Rightarrow> Inl e
      | Inr general_data \<Rightarrow>
          if general_data = [] then Inr [[]]
          else
            (case option_groups page of
               Some (g # gs) \<Rightarrow>
                 (case iterate_options click (length (g # gs)) 0 page of
                    (ys, err, page') \<Rightarrow>
                      (case option_rows general_data ys of
                         Inl e \<Rightarrow> Inl e
                       | Inr page_data \<Rightarrow>
                           (case err of Some e \<Rightarrow> Inl e | None \<Rightarrow> Inr page_data)))
             | _ \<Rightarrow>
                 (case get_specific_data (main_info page) of
                    Inl e \<Rightarrow> Inl e
                  | Inr specific_data \<Rightarrow>
                      Inr [dict_set (ascii ''options'') None
                             (dict_update general_data specific_data)])))"



section \<open>Category discovery\<close>

text \<open>
  The catalog page: the category list container, if any, with its top-level category
  blocks. A block has the \<open>li\<close> with its name (stripped text, and the \<open>a\<close> tag in it, if
  any) and its sub-category \<open>li\<close> elements, each given by the \<open>a\<close> tag found in it, if any.
\<close>

record name_li_tag =
  name_text :: ustring
  name_a :: "a_tag option"

record section_item_tag =
  name_li :: "name_li_tag option"
  sects :: "a_tag option list"

record catalog_soup =
  catalog_section_list :: "section_item_tag list option"

definition categories_to_extract :: "ustring option list" where
  "categories_to_extract =
     [Some (ascii ''/catalog/other_brands/''), Some (ascii ''/catalog/osculati_catalogue/'')]"

text \<open>
  Lines 176 to 187: a category whose name or link tag is missing raises
  \<open>AttributeError\<close> inside the \<open>try\<close>; it is logged and put in neither list.
\<close>

fun sort_main_categories ::
  "section_item_tag list \<Rightarrow> section_item_tag list \<Rightarrow> section_item_tag list
   \<Rightarrow> section_item_tag list \<times> section_item_tag list" where
  "sort_main_categories [] ordered_main_categories extracted_categories =
     (ordered_main_categories, extracted_categories)"
| "sort_main_categories (category # rest) ordered_main_categories extracted_categories =
     (case name_li category of
        None \<Rightarrow> sort_main_categories rest ordered_main_categories extracted_categories
      | Some li \<Rightarrow>
          (case name_a li of
             None \<Rightarrow> sort_main_categories rest ordered_main_categories extracted_categories
           | Some a \<Rightarrow>
               if \<not> href a \<in> set categories_to_extract
               then sort_main_categories rest (ordered_main_categories @ [category])
                      extracted_categories
               else sort_main_categories rest ordered_main_categories
                      (extracted_categories @ [category])))"

text \<open>Line 219: the key \<open>'; '.join([main_name, name])\<close>.\<close>

definition composite_key :: "ustring \<Rightarrow> ustring \<Rightarrow> ustring" where
  "composite_key main_name name = str_join (ascii ''; '') [main_name, name]"

text \<open>Lines 210 to 219: the loop over the sub-categories of one category.\<close>

fun add_sub_categories ::
  "ustring \<Rightarrow> a_tag option list \<Rightarrow> (ustring, ustring option) dict
   \<Rightarrow> (ustring, ustring option) dict" where
  "add_sub_categories main_name [] categories_dict = categories_dict"
| "add_sub_categories main_name (None # rest) categories_dict =
     add_sub_categories main_name rest categories_dict"
| "add_sub_categories main_name (Some category_data # rest) categories_dict =
     add_sub_categories main_name rest
       (dict_set (composite_key main_name (a_text category_data))
          (href category_data) categories_dict)"

definition main_name_of :: "section_item_tag \<Rightarrow> ustring" where
  "main_name_of category = (case name_li category of None \<Rightarrow> [] | Some li \<Rightarrow> name_text li)"

text \<open>
  Lines 193 to 219; \<open>None\<close> is the early \<open>return {}\<close> for a category without
  sub-categories.
\<close>

fun fill_categories_dict ::
  "section_item_tag list \<Rightarrow> (ustring, ustring option) dict
   \<Rightarrow> (ustring, ustring option) dict option" where
  "fill_categories_dict [] categories_dict = Some categories_dict"
| "fill_categories_dict (category # rest) categories_dict =
     (let main_name = main_name_of category;
          sub_categories = sects category
      in if sub_categories = [] then None
         else fill_categories_dict rest
                (add_sub_categories main_name sub_categories categories_dict))"

definition get_categories :: "catalog_soup \<Rightarrow> (ustring, ustring option) dict" where
  "get_categories soup =
     (case catalog_section_list soup of
        None \<Rightarrow> []
      | Some main_categories \<Rightarrow>
          if main_categories = [] then []
          else
            (case sort_main_categories main_categories [] [] of
               (ordered_main_categories, extracted_categories) \<Rightarrow>
                 (case fill_categories_dict (ordered_main_categories @ extracted_categories) [] of
                    None \<Rightarrow> []
                  | Some categories_dict \<Rightarrow> categories_dict)))"

text \<open>
  For the statement of the ordering: the link of a top-level category (\<open>None\<close> when the
  category has no link tag and is dropped), the two partitions, and the entries a
  category contributes, in the order of the page.
\<close>

definition category_href :: "section_item_tag \<Rightarrow> ustring option option" where
  "category_href category =
     (case name_li category of
        None \<Rightarrow> None
      | Some li \<Rightarrow> (case name_a li of None \<Rightarrow> None | Some a \<Rightarrow> Some (href a)))"

definition is_deferred :: "section_item_tag \<Rightarrow> bool" where
  "is_deferred category =
     (case category_href category of None \<Rightarrow> False | Some l \<Rightarrow> l \<in> set categories_to_extract)"

definition is_normal :: "section_item_tag \<Rightarrow> bool" where
  "is_normal category =
     (case category_href category of None \<Rightarrow> False | Some l \<Rightarrow> l \<notin> set categories_to_extract)"

fun sub_entries :: "ustring \<Rightarrow> a_tag option list \<Rightarrow> (ustring, ustring option) dict" where
  "sub_entries main_name [] = []"
| "sub_entries main_name (None # rest) = sub_entries main_name rest"
| "sub_entries main_name (Some a # rest) =
     (composite_key main_name (a_text a), href a) # sub_entries main_name rest"

definition entries_of :: "section_item_tag \<Rightarrow> (ustring, ustring option) dict" where
  "entries_of category = sub_entries (main_name_of category) (sects category)"

definition category_block :: "string \<Rightarrow> string \<Rightarrow> (string \<times> string) list \<Rightarrow> section_item_tag" where
  "category_block name link subs =
     \<lparr>name_li = Some \<lparr>name_text = ascii name,
                       name_a = Some (A_tag (Some (ascii link)) (ascii name))\<rparr>,
      sects = map (\<lambda>(n, l). Some (A_tag (Some (ascii l)) (ascii n))) subs\<rparr>"

definition same_name_catalog :: "section_item_tag list" where
  "same_name_catalog =
     [category_block ''X'' ''/catalog/other_brands/'' [(''s1'', ''/d1/'')],
      category_block ''X'' ''/catalog/x/'' [(''s1'', ''/a1/''), (''s2'', ''/a2/'')],
      category_block ''O'' ''/catalog/osculati_catalogue/'' [(''t'', ''/o1/'')]]"

definition distinct_name_catalog :: "section_item_tag list" where
  "distinct_name_catalog =
     [category_block ''B'' ''/catalog/other_brands/'' [(''b1'', ''/b1/'')],
      category_block ''X'' ''/catalog/x/'' [(''s1'', ''/a1/''), (''s2'', ''/a2/'')],
      category_block ''O'' ''/catalog/osculati_catalogue/'' [(''t'', ''/o1/'')]]"

section \<open>The limit of the CSV field size\<close>

text \<open>
  \<open>int(size / 10)\<close>. The division of two integers gives the double nearest to the exact
  quotient (ties go to the even mantissa of 53 bits) and raises \<open>OverflowError\<close> when that
  double would be \<open>2 ^ 1024\<close> or more; \<open>int\<close> cuts the fraction off. \<open>bit_length\<close> is
  the number of binary digits. For \<open>n > 0\<close> the shift \<open>sh\<close> is the one with
  \<open>2 ^ 52 \<le> n * 2 ^ sh / 10 < 2 ^ 53\<close>, and the double is the rounded mantissa \<open>m\<close> times
  \<open>2 ^ (- sh)\<close>. \<open>None\<close> is the \<open>OverflowError\<close>.
\<close>

function bit_length :: "int \<Rightarrow> nat" where
  "bit_length n = (if n \<le> 0 then 0 else Suc (bit_length (n div 2)))"
  by pat_completeness auto
termination
  by (relation "measure nat") auto

declare bit_length.simps [simp del]

definition round_half_even :: "int \<Rightarrow> int \<Rightarrow> int" where
  "round_half_even num den =
     (let f = num div den;
          r = num mod den
      in if 2 * r < den then f
         else if den < 2 * r then f + 1
         else if even f then f else f + 1)"

definition int_truediv10 :: "int \<Rightarrow> int option" where
  "int_truediv10 sz =
     (let n = \<bar>sz\<bar>
      in if n = 0 then Some 0
         else
           (let sh = 113 - int (bit_length (n * 2 ^ 60 div 10));
                m = (if 0 \<le> sh then round_half_even (n * 2 ^ nat sh) 10
                     else round_half_even n (10 * 2 ^ nat (- sh)))
            in if sh < 0 \<and> 2 ^ 1024 \<le> m * 2 ^ nat (- sh) then None
               else Some (sgn sz *
                      (if 0 \<le> sh then m div 2 ^ nat sh else m * 2 ^ nat (- sh)))))"

text \<open>
  \<open>set_max_csv_size\<close>. \<open>csv.field_size_limit\<close> raises \<open>OverflowError\<close> exactly when its
  argument does not fit a C \<open>long\<close>, whose largest value \<open>long_max\<close> depends on the
  platform. The result is the size that was set, or the exception that leaves the
  function: an \<open>OverflowError\<close> raised by the division inside the handler is not caught.
  \<open>None\<close> stands for a loop that does not end.
\<close>

partial_function (option) set_max_csv_size :: "int \<Rightarrow> int \<Rightarrow> (error + int) option" where
  "set_max_csv_size long_max sz =
     (if - long_max - 1 \<le> sz \<and> sz \<le> long_max then Some (Inr sz)
      else
        (case int_truediv10 sz of
           None \<Rightarrow> Some (Inl OverflowError)
         | Some sz' \<Rightarrow> set_max_csv_size long_max sz'))"


record platform =
  sys_maxsize :: int
  long_max :: int


section \<open>The result sink\<close>

text \<open>
  The CSV file is \<open>None\<close> while it does not exist, and otherwise its lines: the header
  line with the field names, or a data line with one cell per field. \<open>DictWriter\<close>
  writes \<open>None\<close> and a missing key as the empty cell, and raises \<open>ValueError\<close> for a row
  with a key that is not a field name; the rows before that one are written.
\<close>

datatype csv_line = Header_line "ustring list" | Data_line "ustring list"

definition dict_to_list :: "ustring list \<Rightarrow> row \<Rightarrow> ustring list" where
  "dict_to_list fieldnames rowdict =
     map (\<lambda>key. case map_of rowdict key of Some (Some v) \<Rightarrow> v | _ \<Rightarrow> []) fieldnames"

fun writerows :: "ustring list \<Rightarrow> row list \<Rightarrow> csv_line list \<Rightarrow> error option \<times> csv_line list" where
  "writerows fieldnames [] f = (None, f)"
| "writerows fieldnames (rowdict # rowdicts) f =
     (if set (map fst rowdict) \<subseteq> set fieldnames
      then writerows fieldnames rowdicts (f @ [Data_line (dict_to_list fieldnames rowdict)])
      else (Some ValueError, f))"

text \<open>Lines 683 to 694: the file is opened for appending, which creates it when missing.\<close>

definition save_rows ::
  "ustring list \<Rightarrow> row list \<Rightarrow> csv_line list option \<Rightarrow> error option \<times> csv_line list option" where
  "save_rows fields_order page_data data_save_file =
     (let saving_file_exists = (data_save_file \<noteq> None);
          f = (case data_save_file of None \<Rightarrow> [] | Some content \<Rightarrow> content);
          f = (if \<not> saving_file_exists then f @ [Header_line fields_order] else f)
      in case writerows fields_order page_data f of
           (err, f') \<Rightarrow> (err, Some f'))"

text \<open>Any number of such appends one after the other, also across restarts.\<close>

fun save_all :: "ustring list \<Rightarrow> row list list \<Rightarrow> csv_line list option \<Rightarrow> csv_line list option" where
  "save_all fields_order [] data_save_file = data_save_file"
| "save_all fields_order (page_data # rest) data_save_file =
     save_all fields_order rest (snd (save_rows fields_order page_data data_save_file))"

definition is_header :: "csv_line \<Rightarrow> bool" where
  "is_header l = (case l of Header_line fs \<Rightarrow> True | Data_line cs \<Rightarrow> False)"


section \<open>The crawl\<close>


text \<open>
  The state of a run: the set \<open>collected_links\<close>, the ledger file as its lines, the CSV
  file, and the log of the writes in the order in which they happen. A write to the CSV
  file is logged, when the file has been closed, with the category link, the page link
  and the product link under which it was made; an append to the ledger is logged with
  the kind of unit whose loop made it. The log is not read by the code.
\<close>

datatype unit_kind = Category | Page | Product

datatype event =
    Sink_write ustring ustring ustring
  | Ledger_append unit_kind ustring

record state =
  collected_links :: "ustring set"
  collected_links_file :: "ustring list"
  data_save_file :: "csv_line list option"
  events :: "event list"






















declare set_max_csv_size.simps [code]

section \<open>Price normalisation\<close>

text \<open>
  C8. The price text \<open>1 234.56\<close> followed by the currency suffix becomes \<open>123456\<close>: the
  spaces are removed, then the dots, then the suffix, in that order; a page without a
  price tag has the price \<open>None\<close>.
\<close>

theorem price_normalisation:
  "extract_price (Some (ascii ''1 234.56 '' @ rub)) = Some (ascii ''123456'')
   \<and> extract_price None = None
   \<and> (\<forall>text. extract_price (Some text) =
        Some (replace_str rub [] (replace_str (ascii ''.'') [] (replace_str (ascii '' '') [] text))))
   \<and> get_specific_data (Some \<lparr>middle_info = Some \<lparr>price_tag = Some (ascii ''1 234.56 '' @ rub)\<rparr>,
         top_info = Some \<lparr>article_value = None\<rparr>, image_hrefs = []\<rparr>)
       = Inr [(ascii ''article'', None), (ascii ''price'', Some (ascii ''123456'')),
              (ascii ''image_links'', Some [])]
   \<and> get_specific_data (Some \<lparr>middle_info = Some \<lparr>price_tag = None\<rparr>,
         top_info = Some \<lparr>article_value = None\<rparr>, image_hrefs = []\<rparr>)
       = Inr [(ascii ''article'', None), (ascii ''price'', None),
              (ascii ''image_links'', Some [])]"
  by (simp add: extract_price_def get_specific_data_def ascii_def rub_def)

section \<open>Last-page detection\<close>



section \<open>Option enumeration\<close>

lemma btns_loop_discards:
  "Suc level \<noteq> n \<Longrightarrow> fst (btns_loop click n level btns page) = []"
proof (induction btns arbitrary: page)
  case Nil
  show ?case by simp
next
  case (Cons btn btns)
  obtain ys err page2
    where r: "iterate_options click n (Suc level) (press click level btn page) = (ys, err, page2)"
    by (cases "iterate_options click n (Suc level) (press click level btn page)") auto
  show ?case
  proof (cases err)
    case None
    with r Cons show ?thesis by (simp add: Let_def)
  next
    case (Some e)
    with r Cons show ?thesis by (simp add: Let_def)
  qed
qed

lemma iterate_options_discards:
  "Suc level \<noteq> n \<Longrightarrow> fst (iterate_options click n level page) = []"
  by (simp add: iterate_options.simps btns_loop_discards)


text \<open>
  C1. Called at level 0 for two or more option groups, the generator yields nothing,
  whatever the page and its script: the values of the recursive generator are dropped.
  For the page with two independent groups of two and three buttons it yields no
  combination, where six are expected, and \<open>get_product_page_data\<close> returns no row.
\<close>

theorem two_groups_yield_nothing:
  "fst (iterate_options click (Suc (Suc k)) 0 page) = []
   \<and> fst (iterate_options select_click 2 0 two_by_three) = []
   \<and> option_groups two_by_three
       = Some [[option_btn ''S'', option_btn ''M''],
               [option_btn ''red'', option_btn ''green'', option_btn ''blue'']]
   \<and> get_product_page_data select_click two_by_three = Inr []"
proof -
  have "get_product_page_data select_click two_by_three = Inr []"
    by code_simp
  moreover have "fst (iterate_options click (Suc (Suc k)) 0 page) = []"
    and "fst (iterate_options select_click 2 0 two_by_three) = []"
    by (simp_all add: iterate_options_discards)
  moreover have "option_groups two_by_three
       = Some [[option_btn ''S'', option_btn ''M''],
               [option_btn ''red'', option_btn ''green'', option_btn ''blue'']]"
    by (simp add: two_by_three_def)
  ultimately show ?thesis by blast
qed



section \<open>Order of the categories\<close>

lemma sort_main_categories_eq:
  "sort_main_categories cats ordered extracted =
     (ordered @ filter is_normal cats, extracted @ filter is_deferred cats)"
  by (induction cats arbitrary: ordered extracted)
     (auto simp: is_normal_def is_deferred_def category_href_def split: option.splits)

lemma dict_set_fresh: "k \<notin> fst ` set d \<Longrightarrow> dict_set k v d = d @ [(k, v)]"
  by (induction d) auto

lemma add_sub_categories_fresh:
  "distinct (map fst (d @ sub_entries m subs)) \<Longrightarrow>
   add_sub_categories m subs d = d @ sub_entries m subs"
proof (induction m subs d rule: add_sub_categories.induct)
  case (1 main_name categories_dict)
  show ?case by simp
next
  case (2 main_name rest categories_dict)
  then show ?case by simp
next
  case (3 main_name category_data rest categories_dict)
  let ?k = "composite_key main_name (a_text category_data)"
  from "3.prems" have fresh: "?k \<notin> fst ` set categories_dict" by auto
  have "dict_set ?k (href category_data) categories_dict = categories_dict @ [(?k, href category_data)]"
    by (rule dict_set_fresh [OF fresh])
  with 3 show ?case by simp
qed

lemma fill_categories_dict_fresh:
  "\<forall>c \<in> set cats. sects c \<noteq> [] \<Longrightarrow>
   distinct (map fst (d @ concat (map entries_of cats))) \<Longrightarrow>
   fill_categories_dict cats d = Some (d @ concat (map entries_of cats))"
proof (induction cats arbitrary: d)
  case Nil
  show ?case by simp
next
  case (Cons c cats)
  have "add_sub_categories (main_name_of c) (sects c) d = d @ entries_of c"
    unfolding entries_of_def
    by (rule add_sub_categories_fresh) (use Cons.prems in \<open>auto simp add: entries_of_def\<close>)
  moreover have "distinct (map fst ((d @ entries_of c) @ concat (map entries_of cats)))"
    using Cons.prems(2) by simp
  moreover have "\<forall>c \<in> set cats. sects c \<noteq> []"
    using Cons.prems(1) by simp
  ultimately have "fill_categories_dict cats (add_sub_categories (main_name_of c) (sects c) d)
      = Some ((d @ entries_of c) @ concat (map entries_of cats))"
    using Cons.IH [of "d @ entries_of c"] by simp
  with Cons.prems(1) show ?case by (simp add: Let_def)
qed

lemma fill_categories_dict_empty_sects:
  "c \<in> set cats \<Longrightarrow> sects c = [] \<Longrightarrow> fill_categories_dict cats d = None"
  by (induction cats arbitrary: d) (auto simp: Let_def)

text \<open>
  C6, as the code has it. When the composite keys of the categories that are kept are
  pairwise distinct, the mapping returned by \<open>get_categories\<close> lists the entries of the
  categories other than the two deferred ones, in the order of the catalog page,
  followed by the entries of the two deferred categories, in the order of the page;
  it is empty when a kept category has no sub-category.
\<close>

theorem deferred_categories_last:
  assumes "distinct (map fst (concat (map entries_of (filter is_normal cats @ filter is_deferred cats))))"
  shows "get_categories \<lparr>catalog_section_list = Some cats\<rparr> =
     (if \<exists>c \<in> set cats. (is_normal c \<or> is_deferred c) \<and> sects c = [] then []
      else concat (map entries_of (filter is_normal cats))
           @ concat (map entries_of (filter is_deferred cats)))"
proof (cases "\<exists>c \<in> set cats. (is_normal c \<or> is_deferred c) \<and> sects c = []")
  case True
  then obtain c where "c \<in> set (filter is_normal cats @ filter is_deferred cats)" "sects c = []"
    by auto
  then have "fill_categories_dict (filter is_normal cats @ filter is_deferred cats) [] = None"
    by (rule fill_categories_dict_empty_sects)
  with True show ?thesis
    by (simp add: get_categories_def sort_main_categories_eq)
next
  case False
  then have "\<forall>c \<in> set (filter is_normal cats @ filter is_deferred cats). sects c \<noteq> []"
    by auto
  from fill_categories_dict_fresh [OF this, of "[]"] assms
  have "fill_categories_dict (filter is_normal cats @ filter is_deferred cats) [] =
          Some (concat (map entries_of (filter is_normal cats))
                @ concat (map entries_of (filter is_deferred cats)))"
    by simp
  with False show ?thesis
    by (auto simp add: get_categories_def sort_main_categories_eq)
qed

theorem deferred_categories_last_witness:
  "distinct (map fst (concat (map entries_of
      (filter is_normal distinct_name_catalog @ filter is_deferred distinct_name_catalog))))
   \<and> get_categories \<lparr>catalog_section_list = Some distinct_name_catalog\<rparr> =
       [(ascii ''X; s1'', Some (ascii ''/a1/'')), (ascii ''X; s2'', Some (ascii ''/a2/'')),
        (ascii ''B; b1'', Some (ascii ''/b1/'')), (ascii ''O; t'', Some (ascii ''/o1/''))]"
proof -
  have n: "filter is_normal distinct_name_catalog = [distinct_name_catalog ! 1]"
    and d: "filter is_deferred distinct_name_catalog
              = [distinct_name_catalog ! 0, distinct_name_catalog ! 2]"
    by (simp_all add: distinct_name_catalog_def category_block_def is_normal_def is_deferred_def
          category_href_def categories_to_extract_def ascii_def)
  have e: "concat (map entries_of
      (filter is_normal distinct_name_catalog @ filter is_deferred distinct_name_catalog)) =
       [(ascii ''X; s1'', Some (ascii ''/a1/'')), (ascii ''X; s2'', Some (ascii ''/a2/'')),
        (ascii ''B; b1'', Some (ascii ''/b1/'')), (ascii ''O; t'', Some (ascii ''/o1/''))]"
    unfolding n d
    by (simp add: distinct_name_catalog_def category_block_def entries_of_def main_name_of_def
          composite_key_def ascii_def)
  have dist: "distinct (map fst (concat (map entries_of
      (filter is_normal distinct_name_catalog @ filter is_deferred distinct_name_catalog))))"
    unfolding e by (simp add: ascii_def)
  have ne: "\<not> (\<exists>c \<in> set distinct_name_catalog. (is_normal c \<or> is_deferred c) \<and> sects c = [])"
    by (simp add: distinct_name_catalog_def category_block_def)
  from deferred_categories_last [OF dist] ne e dist show ?thesis
    by simp
qed

text \<open>
  The property as the specification words it fails when two top-level categories have the same name and
  a sub-category of the same name: the assignment of a deferred category then replaces
  the value of the key in place, so an entry with the link of the deferred category
  \<open>/catalog/other_brands/\<close> comes before an entry of the other category.
\<close>

theorem deferred_categories_last_counterexample:
  "get_categories \<lparr>catalog_section_list = Some same_name_catalog\<rparr> =
     [(ascii ''X; s1'', Some (ascii ''/d1/'')), (ascii ''X; s2'', Some (ascii ''/a2/'')),
      (ascii ''O; t'', Some (ascii ''/o1/''))]
   \<and> is_deferred (same_name_catalog ! 0)
   \<and> entries_of (same_name_catalog ! 0) = [(ascii ''X; s1'', Some (ascii ''/d1/''))]
   \<and> is_normal (same_name_catalog ! 1)
   \<and> entries_of (same_name_catalog ! 1) =
       [(ascii ''X; s1'', Some (ascii ''/a1/'')), (ascii ''X; s2'', Some (ascii ''/a2/''))]"
  by (simp add: get_categories_def same_name_catalog_def category_block_def is_normal_def
        is_deferred_def category_href_def categories_to_extract_def entries_of_def
        main_name_of_def composite_key_def ascii_def)

section \<open>The header of the result sink\<close>

lemma writerows_extends:
  "\<exists>ds. snd (writerows fo rows f) = f @ map Data_line ds"
proof (induction rows arbitrary: f)
  case Nil
  have "snd (writerows fo [] f) = f @ map Data_line []" by simp
  then show ?case by blast
next
  case (Cons r rows)
  show ?case
  proof (cases "set (map fst r) \<subseteq> set fo")
    case True
    from Cons [of "f @ [Data_line (dict_to_list fo r)]"]
    obtain ds where "snd (writerows fo rows (f @ [Data_line (dict_to_list fo r)]))
        = (f @ [Data_line (dict_to_list fo r)]) @ map Data_line ds" by blast
    with True have "snd (writerows fo (r # rows) f) = f @ map Data_line (dict_to_list fo r # ds)"
      by simp
    then show ?thesis by blast
  next
    case False
    then have "snd (writerows fo (r # rows) f) = f @ map Data_line []" by simp
    then show ?thesis by blast
  qed
qed

lemma save_rows_existing:
  "\<exists>ds. snd (save_rows fo rows (Some content)) = Some (content @ map Data_line ds)"
proof -
  from writerows_extends [of fo rows content]
  obtain ds where "snd (writerows fo rows content) = content @ map Data_line ds" by blast
  then have "snd (save_rows fo rows (Some content)) = Some (content @ map Data_line ds)"
    by (auto simp add: save_rows_def split: prod.splits)
  then show ?thesis by blast
qed

lemma save_rows_new:
  "\<exists>ds. snd (save_rows fo rows None) = Some (Header_line fo # map Data_line ds)"
proof -
  from writerows_extends [of fo rows "[Header_line fo]"]
  obtain ds where "snd (writerows fo rows [Header_line fo]) = [Header_line fo] @ map Data_line ds"
    by blast
  then have "snd (save_rows fo rows None) = Some (Header_line fo # map Data_line ds)"
    by (auto simp add: save_rows_def split: prod.splits)
  then show ?thesis by blast
qed

lemma save_all_existing:
  "\<exists>ds. save_all fo batches (Some content) = Some (content @ map Data_line ds)"
proof (induction batches arbitrary: content)
  case Nil
  have "save_all fo [] (Some content) = Some (content @ map Data_line [])" by simp
  then show ?case by blast
next
  case (Cons rows batches)
  from save_rows_existing [of fo rows content]
  obtain ds where a: "snd (save_rows fo rows (Some content)) = Some (content @ map Data_line ds)"
    by blast
  from Cons [of "content @ map Data_line ds"]
  obtain ds' where "save_all fo batches (Some (content @ map Data_line ds))
      = Some ((content @ map Data_line ds) @ map Data_line ds')" by blast
  with a have "save_all fo (rows # batches) (Some content) = Some (content @ map Data_line (ds @ ds'))"
    by simp
  then show ?case by blast
qed

text \<open>
  C7. Starting with no file, after any number of appends (the first creates the file)
  the file is the header line with the fixed field order followed by data lines only,
  so the header is there exactly once; an append to a file that exists keeps what is
  there and adds data lines only.
\<close>

theorem header_written_once:
  "(\<exists>ds. save_all fields_order (page_data # later) None
            = Some (Header_line fields_order # map Data_line ds))
   \<and> (\<exists>ds. save_all fields_order later (Some content) = Some (content @ map Data_line ds))
   \<and> length (filter is_header (the (save_all fields_order (page_data # later) None))) = 1"
proof -
  from save_rows_new [of fields_order page_data]
  obtain ds where a: "snd (save_rows fields_order page_data None)
      = Some (Header_line fields_order # map Data_line ds)" by blast
  from save_all_existing [of fields_order later "Header_line fields_order # map Data_line ds"]
  obtain ds' where "save_all fields_order later (Some (Header_line fields_order # map Data_line ds))
      = Some ((Header_line fields_order # map Data_line ds) @ map Data_line ds')" by blast
  with a have b: "save_all fields_order (page_data # later) None
      = Some (Header_line fields_order # map Data_line (ds @ ds'))" by simp
  have "filter is_header (map Data_line (ds @ ds')) = []"
    by (induction "ds @ ds'" arbitrary: ds ds') (auto simp: is_header_def filter_empty_conv)
  with b have "length (filter is_header (the (save_all fields_order (page_data # later) None))) = 1"
    by (simp add: is_header_def)
  with b save_all_existing [of fields_order later content] show ?thesis by blast
qed

section \<open>The limit of the field size\<close>

lemma bit_length_lower: "0 < n \<Longrightarrow> 2 ^ (bit_length n - 1) \<le> n"
proof (induction n rule: bit_length.induct)
  case (1 n)
  show ?case
  proof (cases "n div 2 \<le> 0")
    case True
    with 1 have "n = 1" by simp
    then show ?thesis by (simp add: bit_length.simps)
  next
    case False
    then have p: "0 < n div 2" by simp
    with 1 have ih: "2 ^ (bit_length (n div 2) - 1) \<le> n div 2" by simp
    from p have "0 < bit_length (n div 2)" by (subst bit_length.simps) simp
    then have e: "bit_length n - 1 = Suc (bit_length (n div 2) - 1)"
      using 1(2) by (subst bit_length.simps) simp
    have "(2::int) ^ (bit_length n - 1) = 2 * 2 ^ (bit_length (n div 2) - 1)"
      unfolding e by simp
    also have "\<dots> \<le> 2 * (n div 2)" using ih by simp
    also have "\<dots> \<le> n" by simp
    finally show ?thesis .
  qed
qed

lemma round_half_even_upper: "round_half_even num den \<le> num div den + 1"
  by (simp add: round_half_even_def Let_def)

lemma round_half_even_lower: "num div den \<le> round_half_even num den"
  by (simp add: round_half_even_def Let_def)

lemma int_div_mult_le: "(0::int) < d \<Longrightarrow> d * (a div d) \<le> a"
proof -
  assume "0 < d"
  then have "0 \<le> a mod d" by simp
  moreover have "d * (a div d) + a mod d = a" by simp
  ultimately show ?thesis by linarith
qed

lemma int_div_less: "(0::int) < d \<Longrightarrow> m < n * d \<Longrightarrow> m div d < n"
proof (rule ccontr)
  assume d: "0 < d" and a: "m < n * d" and "\<not> m div d < n"
  then have "n \<le> m div d" by simp
  with d have "d * n \<le> d * (m div d)" by (intro mult_left_mono) simp_all
  also from d have "\<dots> \<le> m" by (rule int_div_mult_le)
  finally show False using a by (simp add: mult.commute)
qed

lemma int_truediv10_decreases:
  assumes a: "int_truediv10 sz = Some r" and nz: "sz \<noteq> 0"
  shows "\<bar>r\<bar> < \<bar>sz\<bar>"
proof -
  define n where "n = \<bar>sz\<bar>"
  define x where "x = n * 2 ^ 60 div 10"
  define k where "k = bit_length x"
  define sh where "sh = 113 - int k"
  from nz have n1: "1 \<le> n" by (simp add: n_def)
  have "(10::int) \<le> 2 ^ 60" by simp
  also from n1 have "\<dots> \<le> n * 2 ^ 60" by simp
  finally have "10 \<le> n * 2 ^ 60" .
  then have x_pos: "0 < x" unfolding x_def by simp
  from bit_length_lower [OF x_pos] have kb: "2 ^ (k - 1) \<le> x" by (simp add: k_def)
  have xle: "10 * x \<le> n * 2 ^ 60" unfolding x_def by simp
  from x_pos have k_pos: "0 < k" unfolding k_def by (subst bit_length.simps) simp
  have sg: "\<bar>sgn sz * v\<bar> = v" if "0 \<le> v" for v
    using nz that by (simp add: abs_mult)
  show ?thesis
  proof (cases "0 \<le> sh")
    case True
    define m where "m = round_half_even (n * 2 ^ nat sh) 10"
    from a nz True have r: "r = sgn sz * (m div 2 ^ nat sh)"
      by (auto simp: int_truediv10_def Let_def n_def x_def k_def sh_def m_def split: if_splits)
    have m_up: "m \<le> n * 2 ^ nat sh div 10 + 1"
      unfolding m_def by (rule round_half_even_upper)
    have m_lo: "0 \<le> m"
    proof -
      have "0 \<le> n * 2 ^ nat sh div 10" using n1 by (simp add: pos_imp_zdiv_nonneg_iff)
      also have "\<dots> \<le> m" unfolding m_def by (rule round_half_even_lower)
      finally show ?thesis .
    qed
    have big: "2 \<le> n * 2 ^ nat sh"
    proof (cases "sh = 0")
      case True
      then have "k = 113" unfolding sh_def by simp
      with kb have "(2::int) ^ 112 \<le> x" by simp
      with xle have "10 * (2::int) ^ 112 \<le> n * 2 ^ 60" by simp
      then have "2 \<le> n" by simp
      with True show ?thesis by simp
    next
      case False
      with \<open>0 \<le> sh\<close> have "1 \<le> nat sh" by simp
      then have "(2::int) ^ 1 \<le> 2 ^ nat sh" by (intro power_increasing) simp_all
      with n1 have "2 * 1 \<le> 2 ^ nat sh * n" by (intro mult_mono) simp_all
      then show ?thesis by (simp add: mult.commute)
    qed
    from m_up big have "m < n * 2 ^ nat sh" by simp
    then have "m div 2 ^ nat sh < n"
      by (intro int_div_less) simp_all
    moreover from m_lo have "0 \<le> m div 2 ^ nat sh" by (simp add: pos_imp_zdiv_nonneg_iff)
    ultimately show ?thesis unfolding r using sg by (simp add: n_def)
  next
    case False
    define s where "s = nat (- sh)"
    from False have s1: "1 \<le> s" and ks: "k - 1 = 112 + s"
      unfolding s_def sh_def by simp_all
    define m where "m = round_half_even n (10 * 2 ^ s)"
    from a nz False have r: "r = sgn sz * (m * 2 ^ s)"
      by (auto simp: int_truediv10_def Let_def n_def x_def k_def sh_def m_def s_def split: if_splits)
    have m_up: "m \<le> n div (10 * 2 ^ s) + 1"
      unfolding m_def by (rule round_half_even_upper)
    have m_lo: "0 \<le> m"
    proof -
      have "0 \<le> n div (10 * 2 ^ s)" using n1 by (simp add: pos_imp_zdiv_nonneg_iff)
      also have "\<dots> \<le> m" unfolding m_def by (rule round_half_even_lower)
      finally show ?thesis .
    qed
    define q where "q = n div (10 * 2 ^ s) * 2 ^ s"
    have "(10 * 2 ^ s) * (n div (10 * 2 ^ s)) \<le> n"
      by (rule int_div_mult_le) simp
    then have q10: "10 * q \<le> n" unfolding q_def by (simp add: mult.assoc mult.left_commute mult.commute)
    from m_up have "m * 2 ^ s \<le> (n div (10 * 2 ^ s) + 1) * 2 ^ s"
      by (intro mult_right_mono) simp_all
    then have ms: "m * 2 ^ s \<le> q + 2 ^ s" unfolding q_def by (simp add: algebra_simps)
    from kb ks have "(2::int) ^ (112 + s) \<le> x" by simp
    with xle have "10 * (2::int) ^ (112 + s) \<le> n * 2 ^ 60" by simp
    then have "2 ^ 60 * (10 * (2::int) ^ (52 + s)) \<le> 2 ^ 60 * n"
      by (simp add: power_add mult.commute mult.left_commute)
    then have nb: "10 * (2::int) ^ (52 + s) \<le> n" by simp
    have "(2::int) ^ s \<le> 2 ^ (52 + s)" by (intro power_increasing) simp_all
    with nb have "10 * (2::int) ^ s \<le> n" by linarith
    with q10 ms have "m * 2 ^ s < n" using n1 by linarith
    moreover from m_lo have "0 \<le> m * 2 ^ s" by simp
    ultimately show ?thesis unfolding r using sg by (simp add: n_def)
  qed
qed

text \<open>
  The loop ends for every size, wherever a C \<open>long\<close> can hold zero: with a size that is
  set, or with the exception of the division.
\<close>

lemma set_max_csv_size_halts:
  "0 \<le> lmax \<Longrightarrow> \<exists>y. set_max_csv_size lmax sz = Some y"
proof (induction "nat \<bar>sz\<bar>" arbitrary: sz rule: less_induct)
  case less
  show ?case
  proof (cases "- lmax - 1 \<le> sz \<and> sz \<le> lmax")
    case True
    then show ?thesis by (subst set_max_csv_size.simps) simp
  next
    case False
    with less.prems have nz: "sz \<noteq> 0" by auto
    show ?thesis
    proof (cases "int_truediv10 sz")
      case None
      with False show ?thesis by (subst set_max_csv_size.simps) simp
    next
      case (Some r)
      from int_truediv10_decreases [OF Some nz] have "nat \<bar>r\<bar> < nat \<bar>sz\<bar>" by simp
      from less.hyps [OF this less.prems]
      obtain y where "set_max_csv_size lmax r = Some y" by blast
      with False Some show ?thesis by (subst set_max_csv_size.simps) simp
    qed
  qed
qed

lemma int_truediv10_overflow: "int_truediv10 (10 ^ 310) = None"
  by code_simp

text \<open>
  C9. Where a C \<open>long\<close> has 64 bits, \<open>set_max_csv_size(10 ** 310)\<close> does not reach a size
  that is set: \<open>field_size_limit\<close> raises \<open>OverflowError\<close>, and the division in the
  handler raises \<open>OverflowError\<close> again, which leaves the function.
\<close>

theorem set_max_csv_size_overflow:
  "set_max_csv_size (2 ^ 63 - 1) (10 ^ 310) = Some (Inl OverflowError)"
  using int_truediv10_overflow
  by (subst set_max_csv_size.simps) simp

section \<open>The order of the writes of a run\<close>

















section \<open>Runs on the example sites\<close>



section \<open>A missing listing container\<close>




section \<open>Ledger entries come after the rows\<close>



section \<open>The entries of the ledger\<close>




end
